theory Spec2Isabelle
  imports Complex_Main "HOL-Library.Char_ord" "HOL-Library.List_Lexorder" "HOL-Library.Log_Nat"
begin

section \<open>BetTrack Buddy: the player ledger of \<^verbatim>\<open>BettingDashboard.tsx\<close>\<close>

text \<open>
  The component keeps five pieces of React state (\<^verbatim>\<open>players\<close>, \<^verbatim>\<open>selectedPlayer\<close>,
  \<^verbatim>\<open>newPlayer\<close>, \<^verbatim>\<open>newEarning\<close>, \<^verbatim>\<open>showAllPlayers\<close>) and two handlers that
  change them. The embedding below follows the source line by line. What the source takes
  from the JavaScript platform is modelled as follows:
  \<^item> a \<^verbatim>\<open>number\<close> is \<open>NaN\<close>, one of the two infinities, or a finite double, which is
    kept as the rational it denotes; every arithmetic result is rounded to the nearest
    double, a tie going to the even significand, and overflows to an infinity. Negative
    zero is not kept apart from zero: nothing the component does tells them apart;
  \<^item> a string is a list of UTF-16 code units below 256 (the Latin-1 range), a \<open>char\<close>
    being the code unit; white space and letter case are those of that range;
  \<^item> the object built for a table row is given by its own properties, written under the
    rules of property assignment, \<^verbatim>\<open>__proto__\<close> included.
\<close>

subsection \<open>Numbers\<close>

datatype number = NaN | PosInf | NegInf | Fin rat

text \<open>The exponent of a positive rational: \<open>2 ^ ilog2 q \<le> q < 2 ^ (ilog2 q + 1)\<close>.\<close>

definition ilog2 :: "rat \<Rightarrow> int" where
  "ilog2 q = (if 1 \<le> q then bitlen \<lfloor>q\<rfloor> - 1 else - bitlen (\<lceil>1 / q\<rceil> - 1))"

definition roundTiesToEven :: "rat \<Rightarrow> int" where
  "roundTiesToEven x =
     (let f = \<lfloor>x\<rfloor>; r = x - of_int f
      in if r < 1 / 2 then f else if 1 / 2 < r then f + 1 else if even f then f else f + 1)"

text \<open>
  The double nearest to a rational. The doubles around \<open>q\<close> are the multiples of
  \<open>2 ^ e\<close>, where \<open>e\<close> is 52 below the exponent of \<open>q\<close> and at least -1074 (the
  subnormal range); \<open>m\<close> is the significand after rounding. The result overflows when
  \<open>m * 2 ^ e\<close> reaches \<open>2 ^ 1024\<close>, that is when \<open>m\<close> has more than \<open>1024 - e\<close> bits.
\<close>

definition round_double :: "rat \<Rightarrow> number" where
  "round_double q =
     (if q = 0 then Fin 0
      else
        let e = max (ilog2 \<bar>q\<bar> - 52) (- 1074);
            m = roundTiesToEven (\<bar>q\<bar> / 2 powi e)
        in if 1024 < e + bitlen m then (if 0 < q then PosInf else NegInf)
           else Fin (sgn q * of_int m * 2 powi e))"

text \<open>The \<^verbatim>\<open>+\<close> of two numbers: \<open>NaN\<close> is absorbing, opposite infinities give \<open>NaN\<close>,
  and a finite sum is rounded.\<close>

fun js_add :: "number \<Rightarrow> number \<Rightarrow> number" where
  "js_add NaN _ = NaN"
| "js_add _ NaN = NaN"
| "js_add PosInf NegInf = NaN"
| "js_add NegInf PosInf = NaN"
| "js_add PosInf _ = PosInf"
| "js_add _ PosInf = PosInf"
| "js_add NegInf _ = NegInf"
| "js_add _ NegInf = NegInf"
| "js_add (Fin a) (Fin b) = round_double (a + b)"

text \<open>The comparison \<^verbatim>\<open>a > b\<close>: false as soon as one side is \<open>NaN\<close>.\<close>

fun js_gt :: "number \<Rightarrow> number \<Rightarrow> bool" where
  "js_gt NaN _ = False"
| "js_gt _ NaN = False"
| "js_gt NegInf _ = False"
| "js_gt _ PosInf = False"
| "js_gt PosInf _ = True"
| "js_gt (Fin a) NegInf = True"
| "js_gt (Fin a) (Fin b) = (b < a)"

fun js_neg :: "number \<Rightarrow> number" where
  "js_neg NaN = NaN"
| "js_neg PosInf = NegInf"
| "js_neg NegInf = PosInf"
| "js_neg (Fin a) = Fin (- a)"

text \<open>The \<^verbatim>\<open>*\<close> and \<^verbatim>\<open>/\<close> of two numbers. A zero divisor is the positive zero.\<close>

fun js_mul :: "number \<Rightarrow> number \<Rightarrow> number" where
  "js_mul (Fin a) (Fin b) = round_double (a * b)"
| "js_mul NaN _ = NaN"
| "js_mul _ NaN = NaN"
| "js_mul (Fin a) y = (if a = 0 then NaN else if 0 < a then y else js_neg y)"
| "js_mul x (Fin b) = (if b = 0 then NaN else if 0 < b then x else js_neg x)"
| "js_mul x y = (if x = y then PosInf else NegInf)"

fun js_div :: "number \<Rightarrow> number \<Rightarrow> number" where
  "js_div (Fin a) (Fin b) =
     (if b = 0 then (if a = 0 then NaN else if 0 < a then PosInf else NegInf)
      else round_double (a / b))"
| "js_div NaN _ = NaN"
| "js_div _ NaN = NaN"
| "js_div (Fin a) _ = Fin 0"
| "js_div x (Fin b) = (if 0 \<le> b then x else js_neg x)"
| "js_div _ _ = NaN"

definition isNaN :: "number \<Rightarrow> bool" where
  "isNaN x = (x = NaN)"

text \<open>\<^verbatim>\<open>Math.round\<close>: the nearest integer, a tie going up. The result is a double
  again: below \<open>2 ^ 52\<close> it is an integer of at most 53 bits, and from there on every
  double is an integer.\<close>

fun Math_round :: "number \<Rightarrow> number" where
  "Math_round (Fin x) = Fin (of_int \<lfloor>x + 1 / 2\<rfloor>)"
| "Math_round x = x"

text \<open>The number of an array length: an integer below \<open>2 ^ 32\<close>, which is a double.\<close>

definition of_length :: "nat \<Rightarrow> number" where
  "of_length n = Fin (of_nat n)"

subsection \<open>Strings\<close>

text \<open>White space and line terminators, as \<^verbatim>\<open>trim\<close> and \<^verbatim>\<open>parseFloat\<close> skip them: tab,
  line feed, vertical tab, form feed, carriage return, space and the no-break space.\<close>

definition isWhiteSpace :: "char \<Rightarrow> bool" where
  "isWhiteSpace c =
     (c \<in> set [CHR 0x09, CHR 0x0A, CHR 0x0B, CHR 0x0C, CHR 0x0D, CHR 0x20, CHR 0xA0])"

text \<open>\<^verbatim>\<open>String.prototype.trim\<close>: white space is dropped at both ends.\<close>

definition trim :: "string \<Rightarrow> string" where
  "trim s = rev (dropWhile isWhiteSpace (rev (dropWhile isWhiteSpace s)))"

text \<open>\<^verbatim>\<open>toLowerCase\<close>: the capital letters of the range are \<open>A\<close> to \<open>Z\<close> (65 to 90) and
  the accented capitals 192 to 222 without the multiplication sign 215; the small letter
  is 32 above.\<close>

definition lowerChar :: "char \<Rightarrow> char" where
  "lowerChar c =
     (let n = of_char c :: nat
      in if (65 \<le> n \<and> n \<le> 90) \<or> (192 \<le> n \<and> n \<le> 222 \<and> n \<noteq> 215)
         then char_of (n + 32) else c)"

definition toLowerCase :: "string \<Rightarrow> string" where
  "toLowerCase s = map lowerChar s"

definition isDigit :: "char \<Rightarrow> bool" where
  "isDigit c = (c \<in> set ''0123456789'')"

definition digitVal :: "char \<Rightarrow> nat" where
  "digitVal c = of_char c - 48"

definition digitChar :: "nat \<Rightarrow> char" where
  "digitChar d = ''0123456789'' ! d"

text \<open>The decimal rendering of a natural number, as a template literal \<^verbatim>\<open>${n}\<close> gives it.\<close>

function string_of_nat :: "nat \<Rightarrow> string" where
  "string_of_nat n =
     (if n < 10 then [digitChar n] else string_of_nat (n div 10) @ [digitChar (n mod 10)])"
  by pat_completeness auto
termination
  by (relation "measure id") auto

declare string_of_nat.simps [simp del]

subsection \<open>\<^verbatim>\<open>parseFloat\<close>\<close>

text \<open>
  \<^verbatim>\<open>parseFloat\<close> skips leading white space and reads the longest prefix that is a
  \<^verbatim>\<open>StrDecimalLiteral\<close>: an optional sign, then \<^verbatim>\<open>Infinity\<close> or digits with an optional
  fraction (or a fraction alone) and an optional exponent. Whatever follows the prefix is
  ignored; without such a prefix the result is \<open>NaN\<close>. The decimal value of the prefix
  is rounded to the nearest double (the standard allows an engine to cut a literal of more
  than 20 significant digits before rounding; the engines in use round the full value).
\<close>

definition parseDigits :: "string \<Rightarrow> nat" where
  "parseDigits ds = foldl (\<lambda>acc c. 10 * acc + digitVal c) 0 ds"

text \<open>The exponent part is read only when at least one digit follows \<^verbatim>\<open>e\<close> and the sign.\<close>

definition parseExponent :: "string \<Rightarrow> int" where
  "parseExponent r =
     (case r of
        [] \<Rightarrow> 0
      | c # r' \<Rightarrow>
          if c = CHR ''e'' \<or> c = CHR ''E'' then
            (case r' of
               [] \<Rightarrow> 0
             | sg # r'' \<Rightarrow>
                 if sg = CHR ''-'' then - int (parseDigits (takeWhile isDigit r''))
                 else if sg = CHR ''+'' then int (parseDigits (takeWhile isDigit r''))
                 else int (parseDigits (takeWhile isDigit r')))
          else 0)"

definition parseUnsigned :: "string \<Rightarrow> number" where
  "parseUnsigned u =
     (if take 8 u = ''Infinity'' then PosInf
      else
        let ip = takeWhile isDigit u;
            r1 = dropWhile isDigit u;
            hasDot = (r1 \<noteq> [] \<and> hd r1 = CHR ''.'');
            fp = (if hasDot then takeWhile isDigit (tl r1) else []);
            r2 = (if hasDot then dropWhile isDigit (tl r1) else r1)
        in if ip = [] \<and> fp = [] then NaN
           else round_double
                  ((of_nat (parseDigits ip) + of_nat (parseDigits fp) / 10 ^ length fp)
                     * 10 powi parseExponent r2))"

definition parseFloat :: "string \<Rightarrow> number" where
  "parseFloat s =
     (case dropWhile isWhiteSpace s of
        [] \<Rightarrow> NaN
      | c # r \<Rightarrow>
          if c = CHR ''-'' then js_neg (parseUnsigned r)
          else if c = CHR ''+'' then parseUnsigned r
          else parseUnsigned (c # r))"

subsection \<open>The data model\<close>

record earning =
  match :: string
  amount :: number
  total :: number
  date :: string

record player =
  name :: string
  earnings :: "earning list"
  totalEarnings :: number

record state =
  players :: "player list"
  selectedPlayer :: "player option"
  newPlayer :: string
  newEarning :: string
  showAllPlayers :: bool

text \<open>The component's initial state: the arguments of the five \<^verbatim>\<open>useState\<close> calls.\<close>

definition initial :: state where
  "initial = \<lparr>players = [], selectedPlayer = None, newPlayer = [], newEarning = [],
              showAllPlayers = False\<rparr>"

text \<open>
  The notification a handler raises. The constructors stand for the source's toasts and
  carry the values interpolated into the description; \<open>title\<close> and \<open>destructive\<close> give
  the title string and the variant.
\<close>

datatype toast =
  Invalid_Input_Player
  | Player_Exists
  | Player_Added string
  | Invalid_Input_Earning
  | Invalid_Amount
  | Winning_Added number string
  | Loss_Recorded number string

fun title :: "toast \<Rightarrow> string" where
  "title Invalid_Input_Player = ''Invalid Input''"
| "title Player_Exists = ''Player Exists''"
| "title (Player_Added _) = ''Player Added''"
| "title Invalid_Input_Earning = ''Invalid Input''"
| "title Invalid_Amount = ''Invalid Amount''"
| "title (Winning_Added _ _) = ''Winning Added!''"
| "title (Loss_Recorded _ _) = ''Loss Recorded''"

fun destructive :: "toast \<Rightarrow> bool" where
  "destructive Invalid_Input_Player = True"
| "destructive Player_Exists = True"
| "destructive Invalid_Input_Earning = True"
| "destructive Invalid_Amount = True"
| "destructive _ = False"

subsection \<open>The handlers\<close>

text \<open>
  \<^verbatim>\<open>handleAddPlayer\<close> (lines 32 to 64). A handler returns the state after it and the
  toast it raised; an early \<^verbatim>\<open>return\<close> calls no setter, so it returns the state it got.
\<close>

definition handleAddPlayer :: "state \<Rightarrow> state \<times> toast" where
  "handleAddPlayer s =
     (if trim (newPlayer s) = [] then (s, Invalid_Input_Player)
      else if list_ex (\<lambda>p. toLowerCase (name p) = toLowerCase (newPlayer s)) (players s)
        then (s, Player_Exists)
      else
        let newPlayerObj = \<lparr>name = trim (newPlayer s), earnings = [], totalEarnings = Fin 0\<rparr>
        in (s\<lparr>players := players s @ [newPlayerObj], newPlayer := []\<rparr>,
            Player_Added (newPlayer s)))"

text \<open>The body of the \<^verbatim>\<open>players.map\<close> callback for a player whose name matches (lines 89 to 103).\<close>

definition withEarning :: "string \<Rightarrow> number \<Rightarrow> player \<Rightarrow> player" where
  "withEarning today a p =
     (let newTotal = js_add (totalEarnings p) a;
          newEarningEntry =
            \<lparr>match = ''Ticket '' @ string_of_nat (length (earnings p) + 1),
             amount = a, total = newTotal, date = today\<rparr>;
          updatedEarnings = earnings p @ [newEarningEntry]
      in p\<lparr>earnings := updatedEarnings, totalEarnings := newTotal\<rparr>)"

definition updatedPlayers :: "string \<Rightarrow> number \<Rightarrow> player \<Rightarrow> player list \<Rightarrow> player list" where
  "updatedPlayers today a sel ps =
     map (\<lambda>p. if name p = name sel then withEarning today a p else p) ps"

text \<open>
  \<^verbatim>\<open>handleAddEarning\<close> (lines 67 to 117). The date stamp \<^verbatim>\<open>new Date().toLocaleDateString()\<close>
  is the parameter \<open>today\<close>.
\<close>

definition handleAddEarning :: "string \<Rightarrow> state \<Rightarrow> state \<times> toast" where
  "handleAddEarning today s =
     (if newEarning s = [] then (s, Invalid_Input_Earning)
      else
        case selectedPlayer s of
          None \<Rightarrow> (s, Invalid_Input_Earning)
        | Some sel \<Rightarrow>
            let a = parseFloat (newEarning s)
            in if isNaN a then (s, Invalid_Amount)
               else
                 let ups = updatedPlayers today a sel (players s)
                 in (s\<lparr>players := ups,
                       selectedPlayer := find (\<lambda>p. name p = name sel) ups,
                       newEarning := []\<rparr>,
                     if js_gt a (Fin 0) then Winning_Added a (name sel)
                     else Loss_Recorded a (name sel)))"

subsection \<open>Dashboard statistics (lines 120 to 122 and 227)\<close>

definition totalPlayers :: "player list \<Rightarrow> nat" where
  "totalPlayers ps = length ps"

definition totalWinnings :: "player list \<Rightarrow> number" where
  "totalWinnings ps = foldl (\<lambda>sum p. js_add sum (totalEarnings p)) (Fin 0) ps"

definition profitablePlayers :: "player list \<Rightarrow> nat" where
  "profitablePlayers ps = length (filter (\<lambda>p. js_gt (totalEarnings p) (Fin 0)) ps)"

definition winRate :: "player list \<Rightarrow> number" where
  "winRate ps =
     (if totalPlayers ps > 0
      then Math_round
             (js_mul (js_div (of_length (profitablePlayers ps)) (of_length (totalPlayers ps)))
                (Fin 100))
      else Fin 0)"

subsection \<open>The comparison table (lines 125 to 141)\<close>

datatype jsvalue = Str string | Num number | Null

text \<open>Adding to a \<^verbatim>\<open>Set\<close> keeps the first insertion of a label.\<close>

definition addMatch :: "string list \<Rightarrow> earning \<Rightarrow> string list" where
  "addMatch acc e = (if match e \<in> set acc then acc else acc @ [match e])"

definition allMatches :: "player list \<Rightarrow> string list" where
  "allMatches ps = foldl (\<lambda>acc p. foldl addMatch acc (earnings p)) [] ps"

definition sortedMatches :: "player list \<Rightarrow> string list" where
  "sortedMatches ps = sort (allMatches ps)"

definition cell :: "string \<Rightarrow> player \<Rightarrow> jsvalue" where
  "cell m p = (case find (\<lambda>e. match e = m) (earnings p) of
                 Some e \<Rightarrow> Num (total e)
               | None \<Rightarrow> Null)"

text \<open>
  A row starts as the object \<^verbatim>\<open>{ match }\<close>; then every player, in roster order, assigns
  to the property of the player's name. An assignment creates or replaces an own property,
  so a later player of the same name, or a player named \<^verbatim>\<open>match\<close>, replaces what was
  there. The one exception is the name \<^verbatim>\<open>__proto__\<close> while the object still has its
  prototype: the assignment runs the inherited setter, which ignores a number and, given
  \<^verbatim>\<open>null\<close>, removes the prototype. The flag says whether the prototype is still there;
  a row is then given by its own properties.
\<close>

definition setProperty ::
    "(string \<rightharpoonup> jsvalue) \<times> bool \<Rightarrow> string \<Rightarrow> jsvalue \<Rightarrow> (string \<rightharpoonup> jsvalue) \<times> bool" where
  "setProperty obj k v =
     (case obj of (own, hasProto) \<Rightarrow>
        if k = ''__proto__'' \<and> hasProto \<and> own k = None
        then (own, v \<noteq> Null)
        else (own(k \<mapsto> v), hasProto))"

definition dataPoint :: "player list \<Rightarrow> string \<Rightarrow> (string \<rightharpoonup> jsvalue)" where
  "dataPoint ps m =
     fst (foldl (\<lambda>obj p. setProperty obj (name p) (cell m p)) ([''match'' \<mapsto> Str m], True) ps)"

definition generateAllPlayersData :: "player list \<Rightarrow> (string \<rightharpoonup> jsvalue) list" where
  "generateAllPlayersData ps = map (dataPoint ps) (sortedMatches ps)"

subsection \<open>User events and reachable states\<close>

text \<open>
  What a user can do: type into either input, press either button, click a player of the
  list (by its index) and click the total-earnings card, which shows all players.
\<close>

datatype event =
  SetNewPlayer string
  | SetNewEarning string
  | AddPlayer
  | AddEarning string
  | SelectPlayer nat
  | ShowAll

fun step :: "state \<Rightarrow> event \<Rightarrow> state" where
  "step s (SetNewPlayer v) = s\<lparr>newPlayer := v\<rparr>"
| "step s (SetNewEarning v) = s\<lparr>newEarning := v\<rparr>"
| "step s AddPlayer = fst (handleAddPlayer s)"
| "step s (AddEarning today) = fst (handleAddEarning today s)"
| "step s (SelectPlayer i) =
     (if i < length (players s)
      then s\<lparr>selectedPlayer := Some (players s ! i), showAllPlayers := False\<rparr>
      else s)"
| "step s ShowAll = s\<lparr>showAllPlayers := True, selectedPlayer := None\<rparr>"

definition run :: "event list \<Rightarrow> state" where
  "run evs = foldl step initial evs"

subsection \<open>Predicates used in the statements\<close>

text \<open>The ledger invariant of one player: the total is the sum of the amounts, added from
  zero in the order of the entries, and every entry's snapshot is that sum up to and
  including the entry.\<close>

definition ledger_ok :: "player \<Rightarrow> bool" where
  "ledger_ok p \<longleftrightarrow>
     totalEarnings p = foldl js_add (Fin 0) (map amount (earnings p)) \<and>
     (\<forall>i < length (earnings p).
        total (earnings p ! i) = foldl js_add (Fin 0) (map amount (take (Suc i) (earnings p))))"

text \<open>Of two players with one name, the one earlier in the roster has at least as many
  entries: it is older, and every earning for that name went to both.\<close>

definition seniority :: "player list \<Rightarrow> bool" where
  "seniority ps \<longleftrightarrow>
     (\<forall>j < length ps. \<forall>i < j. name (ps ! i) = name (ps ! j) \<longrightarrow>
        length (earnings (ps ! j)) \<le> length (earnings (ps ! i)))"



subsection \<open>Example sessions\<close>

definition alice :: player where
  "alice = \<lparr>name = ''Alice'',
             earnings = [\<lparr>match = ''Ticket 1'', amount = Fin 50, total = Fin 50,
                          date = ''11/3/2026''\<rparr>],
             totalEarnings = Fin 50\<rparr>"

definition bob :: player where
  "bob = \<lparr>name = ''Bob'', earnings = [], totalEarnings = Fin 0\<rparr>"

definition alice_and_bob :: state where
  "alice_and_bob = \<lparr>players = [alice, bob], selectedPlayer = Some alice, newPlayer = [],
                      newEarning = ''-20'', showAllPlayers = False\<rparr>"

text \<open>A state no session reaches: the selection names a player the roster does not have.\<close>

definition stale_selection :: state where
  "stale_selection = \<lparr>players = [bob], selectedPlayer = Some alice, newPlayer = [],
                        newEarning = ''5'', showAllPlayers = False\<rparr>"

definition alice_selected :: "event list" where
  "alice_selected =
     [SetNewPlayer ''Alice'', AddPlayer, SelectPlayer 0, SetNewEarning ''50'']"

text \<open>A second player enters as \<^verbatim>\<open>Alice\<close> followed by a space, after the first has an earning.\<close>

definition two_alices :: "event list" where
  "two_alices =
     [SetNewPlayer ''Alice'', AddPlayer, SelectPlayer 0,
      SetNewEarning ''10'', AddEarning ''11/3/2026'',
      SetNewPlayer ''Alice '', AddPlayer,
      SetNewEarning ''5'', AddEarning ''11/4/2026'']"

definition three_players :: "player list" where
  "three_players =
     [\<lparr>name = ''Ann'', earnings = [], totalEarnings = Fin 12\<rparr>,
      \<lparr>name = ''Ben'', earnings = [], totalEarnings = Fin 0\<rparr>,
      \<lparr>name = ''Cy'', earnings = [], totalEarnings = Fin (- 7)\<rparr>]"

text \<open>Forty players of whom 23 are profitable: 57.5 percent.\<close>

definition forty_players :: "player list" where
  "forty_players =
     replicate 23 \<lparr>name = ''W'', earnings = [], totalEarnings = Fin 1\<rparr> @
     replicate 17 \<lparr>name = ''L'', earnings = [], totalEarnings = Fin 0\<rparr>"

definition tenths_session :: "event list" where
  "tenths_session =
     [SetNewPlayer ''Alice'', AddPlayer, SelectPlayer 0,
      SetNewEarning ''0.1'', AddEarning ''11/3/2026'',
      SetNewEarning ''0.2'', AddEarning ''11/3/2026'',
      SetNewEarning ''0.3'', AddEarning ''11/3/2026'']"

definition alice_session :: "event list" where
  "alice_session =
     [SetNewPlayer ''Alice'', AddPlayer, SelectPlayer 0,
      SetNewEarning ''50'', AddEarning ''11/3/2026'',
      SetNewEarning ''-20'', AddEarning ''11/4/2026'']"

section \<open>Lemmas about the handlers\<close>

lemma handleAddEarning_ok:
  assumes "selectedPlayer s = Some sel" and "newEarning s \<noteq> []"
    and "parseFloat (newEarning s) \<noteq> NaN"
  shows "handleAddEarning today s =
    (s\<lparr>players := updatedPlayers today (parseFloat (newEarning s)) sel (players s),
       selectedPlayer := find (\<lambda>p. name p = name sel)
          (updatedPlayers today (parseFloat (newEarning s)) sel (players s)),
       newEarning := []\<rparr>,
     if js_gt (parseFloat (newEarning s)) (Fin 0)
     then Winning_Added (parseFloat (newEarning s)) (name sel)
     else Loss_Recorded (parseFloat (newEarning s)) (name sel))"
  using assms by (simp add: handleAddEarning_def isNaN_def Let_def)

lemma handleAddEarning_success_iff:
  "\<not> destructive (snd (handleAddEarning today s)) \<longleftrightarrow>
     selectedPlayer s \<noteq> None \<and> newEarning s \<noteq> [] \<and> parseFloat (newEarning s) \<noteq> NaN"
  by (simp add: handleAddEarning_def isNaN_def Let_def split: option.splits)

lemma handleAddPlayer_success_iff:
  "\<not> destructive (snd (handleAddPlayer s)) \<longleftrightarrow>
     trim (newPlayer s) \<noteq> [] \<and>
     \<not> list_ex (\<lambda>p. toLowerCase (name p) = toLowerCase (newPlayer s)) (players s)"
  by (simp add: handleAddPlayer_def Let_def)

lemma handleAddPlayer_ok:
  assumes "trim (newPlayer s) \<noteq> []"
    and "\<not> list_ex (\<lambda>p. toLowerCase (name p) = toLowerCase (newPlayer s)) (players s)"
  shows "handleAddPlayer s =
    (s\<lparr>players := players s @ [\<lparr>name = trim (newPlayer s), earnings = [], totalEarnings = Fin 0\<rparr>],
       newPlayer := []\<rparr>, Player_Added (newPlayer s))"
  using assms by (simp add: handleAddPlayer_def Let_def)

lemma handleAddEarning_cases:
  "fst (handleAddEarning today s) = s \<or>
   (\<exists>sel a. selectedPlayer s = Some sel \<and>
      fst (handleAddEarning today s) =
        s\<lparr>players := updatedPlayers today a sel (players s),
          selectedPlayer := find (\<lambda>p. name p = name sel) (updatedPlayers today a sel (players s)),
          newEarning := []\<rparr>)"
  by (cases "selectedPlayer s") (auto simp: handleAddEarning_def Let_def)

lemma handleAddPlayer_cases:
  "fst (handleAddPlayer s) = s \<or>
   fst (handleAddPlayer s) =
     s\<lparr>players := players s @ [\<lparr>name = trim (newPlayer s), earnings = [], totalEarnings = Fin 0\<rparr>],
       newPlayer := []\<rparr>"
  by (simp add: handleAddPlayer_def Let_def)

lemma run_induct [consumes 0, case_names initial step]:
  assumes "P initial" and "\<And>s e. P s \<Longrightarrow> P (step s e)"
  shows "P (run evs)"
  unfolding run_def by (induction evs rule: rev_induct) (simp_all add: assms)

subsection \<open>The ledger invariant\<close>

lemma ledger_ok_withEarning:
  assumes "ledger_ok p"
  shows "ledger_ok (withEarning today a p)"
proof -
  let ?e = "\<lparr>match = ''Ticket '' @ string_of_nat (length (earnings p) + 1),
             amount = a, total = js_add (totalEarnings p) a, date = today\<rparr>"
  have tot: "totalEarnings p = foldl js_add (Fin 0) (map amount (earnings p))"
    and pre: "\<And>i. i < length (earnings p) \<Longrightarrow>
        total (earnings p ! i) = foldl js_add (Fin 0) (map amount (take (Suc i) (earnings p)))"
    using assms by (simp_all add: ledger_ok_def)
  have "total ((earnings p @ [?e]) ! i) =
          foldl js_add (Fin 0) (map amount (take (Suc i) (earnings p @ [?e])))"
    if "i < Suc (length (earnings p))" for i
  proof (cases "i < length (earnings p)")
    case True
    then show ?thesis by (simp add: nth_append pre)
  next
    case False
    with that have "i = length (earnings p)" by simp
    then show ?thesis by (simp add: tot)
  qed
  then show ?thesis
    by (simp add: ledger_ok_def withEarning_def Let_def tot)
qed

lemma ledger_ok_step:
  assumes "\<forall>p \<in> set (players s). ledger_ok p"
  shows "\<forall>p \<in> set (players (step s e)). ledger_ok p"
proof (cases e)
  case AddPlayer
  have "ledger_ok \<lparr>name = n, earnings = [], totalEarnings = Fin 0\<rparr>" for n
    by (simp add: ledger_ok_def)
  with assms handleAddPlayer_cases [of s] AddPlayer show ?thesis by auto
next
  case (AddEarning today)
  with assms handleAddEarning_cases [of today s] show ?thesis
    by (auto simp: updatedPlayers_def ledger_ok_withEarning)
qed (use assms in auto)

subsection \<open>The selection and the roster\<close>

lemma find_updatedPlayers:
  "find (\<lambda>p. name p = name sel) (updatedPlayers today a sel ps) =
     map_option (withEarning today a) (find (\<lambda>p. name p = name sel) ps)"
  by (induction ps) (simp_all add: updatedPlayers_def withEarning_def Let_def)

lemma name_withEarning [simp]: "name (withEarning today a p) = name p"
  by (simp add: withEarning_def Let_def)

lemma length_earnings_withEarning [simp]:
  "length (earnings (withEarning today a p)) = Suc (length (earnings p))"
  by (simp add: withEarning_def Let_def)

lemma find_Some_mem: "find P xs = Some x \<Longrightarrow> x \<in> set xs \<and> P x"
  by (auto simp: find_Some_iff)

lemma selected_in_roster_step:
  assumes "\<forall>sel. selectedPlayer s = Some sel \<longrightarrow> sel \<in> set (players s)"
  shows "\<forall>sel. selectedPlayer (step s e) = Some sel \<longrightarrow> sel \<in> set (players (step s e))"
proof (cases e)
  case AddPlayer
  with assms handleAddPlayer_cases [of s] show ?thesis by auto
next
  case (AddEarning today)
  with assms handleAddEarning_cases [of today s] show ?thesis
    by (auto dest: find_Some_mem)
qed (use assms in auto)

lemma selected_in_roster:
  "selectedPlayer (run evs) = Some sel \<Longrightarrow> sel \<in> set (players (run evs))"
proof -
  have "\<forall>sel. selectedPlayer (run evs) = Some sel \<longrightarrow> sel \<in> set (players (run evs))"
    by (induction rule: run_induct) (simp_all add: initial_def selected_in_roster_step)
  then show "selectedPlayer (run evs) = Some sel \<Longrightarrow> sel \<in> set (players (run evs))" by simp
qed

lemma seniority_step:
  assumes "seniority (players s)"
  shows "seniority (players (step s e))"
proof (cases e)
  case AddPlayer
  have "seniority (players s @ [\<lparr>name = n, earnings = [], totalEarnings = Fin 0\<rparr>])" for n
    using assms unfolding seniority_def by (auto simp: nth_append less_Suc_eq)
  with assms handleAddPlayer_cases [of s] AddPlayer show ?thesis by auto
next
  case (AddEarning today)
  have "seniority (updatedPlayers today a sel (players s))" for a sel
    using assms unfolding seniority_def updatedPlayers_def by auto
  with assms handleAddEarning_cases [of today s] AddEarning show ?thesis by auto
qed (use assms in auto)

lemma seniority_run: "seniority (players (run evs))"
proof (induction rule: run_induct)
  case initial
  show ?case by (simp add: initial_def seniority_def)
next
  case (step s e)
  then show ?case by (rule seniority_step)
qed

lemma find_first_longest:
  assumes "seniority ps" and "find (\<lambda>p. name p = n) ps = Some q"
    and "p \<in> set ps" and "name p = n"
  shows "length (earnings p) \<le> length (earnings q)"
proof -
  from assms(2) obtain i where i: "i < length ps" "q = ps ! i" "name q = n"
    and first: "\<forall>j < i. name (ps ! j) \<noteq> n"
    by (auto simp: find_Some_iff)
  from assms(3) obtain j where j: "j < length ps" "p = ps ! j"
    by (auto simp: in_set_conv_nth)
  from first j assms(4) have "i \<le> j" by (metis not_le_imp_less)
  show ?thesis
  proof (cases "i = j")
    case True
    with i j show ?thesis by simp
  next
    case False
    with \<open>i \<le> j\<close> have "i < j" by simp
    with assms(1) j i assms(4) show ?thesis by (simp add: seniority_def)
  qed
qed

subsection \<open>Strings and parsing\<close>

lemma below_ten:
  "(d::nat) < 10 \<Longrightarrow>
     d = 0 \<or> d = 1 \<or> d = 2 \<or> d = 3 \<or> d = 4 \<or> d = 5 \<or> d = 6 \<or> d = 7 \<or> d = 8 \<or> d = 9"
  by arith

lemma digitVal_digitChar: "d < 10 \<Longrightarrow> digitVal (digitChar d) = d"
  by (drule below_ten) (elim disjE; simp add: digitChar_def digitVal_def)

lemma isDigit_digitChar: "d < 10 \<Longrightarrow> isDigit (digitChar d)"
  by (drule below_ten) (elim disjE; simp add: digitChar_def isDigit_def)

lemma parseDigits_snoc: "parseDigits (ds @ [c]) = 10 * parseDigits ds + digitVal c"
  by (simp add: parseDigits_def)

lemma string_of_nat_decimal:
  "parseDigits (string_of_nat n) = n \<and> list_all isDigit (string_of_nat n)"
proof (induction n rule: string_of_nat.induct)
  case (1 n)
  show ?case
  proof (cases "n < 10")
    case True
    then show ?thesis
      by (simp add: string_of_nat.simps [of n] parseDigits_def digitVal_digitChar isDigit_digitChar)
  next
    case False
    with 1 show ?thesis
      by (simp add: string_of_nat.simps [of n] parseDigits_snoc digitVal_digitChar isDigit_digitChar)
  qed
qed





lemma trim_decomp:
  "\<exists>pre suf. s = pre @ trim s @ suf \<and> (\<forall>c \<in> set pre. isWhiteSpace c) \<and> (\<forall>c \<in> set suf. isWhiteSpace c)"
proof -
  let ?t = "dropWhile isWhiteSpace s"
  let ?suf = "rev (takeWhile isWhiteSpace (rev ?t))"
  have "?t = rev (rev ?t)"
    by (simp only: rev_rev_ident)
  also have "\<dots> = rev (takeWhile isWhiteSpace (rev ?t) @ dropWhile isWhiteSpace (rev ?t))"
    by (simp only: takeWhile_dropWhile_id)
  also have "\<dots> = trim s @ ?suf"
    by (simp only: rev_append trim_def)
  finally have t: "?t = trim s @ ?suf" .
  have "s = takeWhile isWhiteSpace s @ ?t" by simp
  with t have "s = takeWhile isWhiteSpace s @ trim s @ ?suf" by simp
  moreover have "\<forall>c \<in> set (takeWhile isWhiteSpace s). isWhiteSpace c"
    by (auto dest: set_takeWhileD)
  moreover have "\<forall>c \<in> set ?suf. isWhiteSpace c"
    by (auto dest: set_takeWhileD)
  ultimately show ?thesis by blast
qed

lemma trim_ends:
  assumes "trim s \<noteq> []"
  shows "\<not> isWhiteSpace (hd (trim s)) \<and> \<not> isWhiteSpace (last (trim s))"
proof -
  let ?t = "dropWhile isWhiteSpace s"
  let ?d = "dropWhile isWhiteSpace (rev ?t)"
  from assms have d: "?d \<noteq> []" by (simp add: trim_def)
  have t: "?t \<noteq> []"
  proof
    assume "?t = []"
    then have "?d = []" by (simp only: rev.simps dropWhile.simps)
    with d show False by (simp only:)
  qed
  have "last (trim s) = hd ?d"
    using d by (simp add: trim_def last_rev)
  moreover have "\<not> isWhiteSpace (hd ?d)"
    using d by (rule hd_dropWhile)
  moreover have "hd (trim s) = last ?d"
    using d by (simp add: trim_def hd_rev)
  moreover have "last ?d = last (rev ?t)"
  proof -
    have "last (rev ?t) = last (takeWhile isWhiteSpace (rev ?t) @ ?d)"
      by (simp only: takeWhile_dropWhile_id)
    also have "\<dots> = last ?d"
      using d by (rule last_appendR)
    finally show ?thesis by (rule sym)
  qed
  moreover have "last (rev ?t) = hd ?t"
    using t by (simp add: last_rev)
  moreover have "\<not> isWhiteSpace (hd ?t)"
    using t by (rule hd_dropWhile)
  ultimately show ?thesis by simp
qed

subsection \<open>Statistics and the comparison table\<close>

lemma totalWinnings_foldl:
  "totalWinnings ps = foldl js_add (Fin 0) (map totalEarnings ps)"
  by (simp add: totalWinnings_def foldl_map)

lemma profitable_card:
  "profitablePlayers ps = card {i. i < length ps \<and> js_gt (totalEarnings (ps ! i)) (Fin 0)}"
  by (simp add: profitablePlayers_def length_filter_conv_card)

lemma set_foldl_addMatch:
  "set (foldl addMatch acc es) = set acc \<union> match ` set es"
  by (induction es arbitrary: acc) (auto simp: addMatch_def)

lemma distinct_foldl_addMatch:
  "distinct acc \<Longrightarrow> distinct (foldl addMatch acc es)"
  by (induction es arbitrary: acc) (auto simp: addMatch_def)

lemma set_foldl_players:
  "set (foldl (\<lambda>acc p. foldl addMatch acc (earnings p)) acc ps) =
     set acc \<union> (\<Union>p \<in> set ps. match ` set (earnings p))"
  by (induction ps arbitrary: acc) (auto simp: set_foldl_addMatch)

lemma distinct_foldl_players:
  "distinct acc \<Longrightarrow> distinct (foldl (\<lambda>acc p. foldl addMatch acc (earnings p)) acc ps)"
  by (induction ps arbitrary: acc) (auto simp: distinct_foldl_addMatch)

lemma sortedMatches_props:
  "set (sortedMatches ps) = (\<Union>p \<in> set ps. match ` set (earnings p)) \<and>
   distinct (sortedMatches ps) \<and> sorted (sortedMatches ps)"
  by (simp add: sortedMatches_def allMatches_def set_foldl_players distinct_foldl_players)

lemma dataPoint_plain:
  assumes "''__proto__'' \<notin> name ` set ps"
  shows "foldl (\<lambda>obj p. setProperty obj (name p) (cell m p)) (own, h) ps =
           (foldl (\<lambda>dp p. dp(name p \<mapsto> cell m p)) own ps, h)"
  using assms by (induction ps arbitrary: own) (auto simp: setProperty_def)

lemma foldl_upd_lookup:
  "foldl (\<lambda>dp p. dp(name p \<mapsto> cell m p)) own ps k =
     (case find (\<lambda>p. name p = k) (rev ps) of
        Some p \<Rightarrow> Some (cell m p)
      | None \<Rightarrow> own k)"
  by (induction ps rule: rev_induct) auto

lemma find_rev_distinct:
  assumes "distinct (map name ps)" and "p \<in> set ps"
  shows "find (\<lambda>q. name q = name p) (rev ps) = Some p"
  using assms by (induction ps rule: rev_induct) (auto simp: image_iff)

lemma dataPoint_distinct:
  assumes "distinct (map name ps)" and "''__proto__'' \<notin> name ` set ps" and "p \<in> set ps"
  shows "dataPoint ps m (name p) = Some (cell m p)"
  by (simp add: dataPoint_def dataPoint_plain [OF assms(2)] foldl_upd_lookup
      find_rev_distinct [OF assms(1,3)])

text \<open>A player named \<^verbatim>\<open>__proto__\<close> leaves no property in a row; one named \<^verbatim>\<open>match\<close>
  replaces the label.\<close>

lemma special_names_in_row:
  "dataPoint [\<lparr>name = ''__proto__'', earnings = [], totalEarnings = Fin 0\<rparr>] ''Ticket 1''
     ''__proto__'' = None \<and>
   dataPoint [\<lparr>name = ''match'', earnings = [], totalEarnings = Fin 0\<rparr>] ''Ticket 1''
     ''match'' = Some Null"
  by (simp add: dataPoint_def setProperty_def cell_def)

subsection \<open>Rounding to a double\<close>

lemma roundTiesToEven_near: "\<bar>of_int (roundTiesToEven x) - x\<bar> \<le> 1 / 2"
  unfolding roundTiesToEven_def Let_def
  by (auto simp: abs_if) linarith+

lemma ilog2_bounds:
  assumes "0 < q"
  shows "2 powi ilog2 q \<le> q \<and> q < 2 powi (ilog2 q + 1)"
proof (cases "1 \<le> q")
  case True
  define n where "n = \<lfloor>q\<rfloor>"
  from True have n: "0 < n" by (simp add: n_def)
  from bitlen_bounds [OF n] have lo: "2 ^ nat (bitlen n - 1) \<le> n" and hi: "n < 2 ^ nat (bitlen n)"
    by simp_all
  from n have b: "1 \<le> bitlen n" by (simp add: bitlen_alt_def)
  have i: "ilog2 q = bitlen n - 1" using True by (simp add: ilog2_def n_def)
  have "(2::rat) powi (bitlen n - 1) = of_int (2 ^ nat (bitlen n - 1))"
    using b by (simp add: power_int_def)
  also have "\<dots> \<le> of_int n" using lo by (simp only: of_int_le_iff)
  also have "\<dots> \<le> q" by (simp add: n_def)
  finally have 1: "2 powi ilog2 q \<le> q" by (simp add: i)
  have "q < of_int (n + 1)" unfolding n_def by linarith
  also have "\<dots> \<le> of_int (2 ^ nat (bitlen n))" using hi by (simp only: of_int_le_iff; linarith)
  also have "\<dots> = (2::rat) powi (bitlen n)" using b by (simp add: power_int_def)
  finally have 2: "q < 2 powi (ilog2 q + 1)" by (simp add: i)
  from 1 2 show ?thesis ..
next
  case False
  define c where "c = \<lceil>1 / q\<rceil>"
  define j where "j = bitlen (c - 1)"
  from False assms have r: "1 < 1 / q" by simp
  then have c: "2 \<le> c" unfolding c_def by linarith
  then have c1: "0 < c - 1" by simp
  from bitlen_bounds [OF c1] have lo: "2 ^ nat (j - 1) \<le> c - 1" and hi: "c - 1 < 2 ^ nat j"
    by (simp_all add: j_def)
  from c1 have b: "1 \<le> j" by (simp add: bitlen_alt_def j_def)
  have i: "ilog2 q = - j" using False by (simp add: ilog2_def j_def c_def)
  have "1 / q \<le> of_int c" by (simp add: c_def)
  also have "of_int c \<le> (of_int (2 ^ nat j) :: rat)" using hi by (simp only: of_int_le_iff; linarith)
  finally have "1 / q \<le> 2 ^ nat j" by simp
  then have "1 / 2 ^ nat j \<le> q" using assms
    by (simp add: field_simps)
  moreover have "(2::rat) powi (- j) = 1 / 2 ^ nat j"
  proof -
    have "(2::rat) powi (- j) = 1 / 2 powi j"
      by (rule power_int_minus_divide)
    also have "(2::rat) powi j = 2 ^ nat j"
      using b by (simp add: power_int_def)
    finally show ?thesis .
  qed
  ultimately have 1: "2 powi ilog2 q \<le> q" by (simp add: i)
  have "(of_int (2 ^ nat (j - 1)) :: rat) \<le> of_int (c - 1)" using lo by (simp only: of_int_le_iff)
  also have "\<dots> < 1 / q" unfolding c_def by linarith
  finally have "2 ^ nat (j - 1) < 1 / q" by simp
  then have "q < 1 / 2 ^ nat (j - 1)" using assms
    by (simp add: field_simps)
  moreover have "(2::rat) powi (- j + 1) = 1 / 2 ^ nat (j - 1)"
  proof -
    have "(2::rat) powi (- (j - 1)) = 1 / 2 powi (j - 1)"
      by (rule power_int_minus_divide)
    also have "(2::rat) powi (j - 1) = 2 ^ nat (j - 1)"
      using b by (simp add: power_int_def)
    finally show ?thesis by simp
  qed
  ultimately have 2: "q < 2 powi (ilog2 q + 1)" by (simp add: i)
  from 1 2 show ?thesis ..
qed


lemma ilog2_range:
  assumes "2 powi lo \<le> q" and "q < 2 powi hi"
  shows "lo \<le> ilog2 q \<and> ilog2 q < hi"
proof -
  have pos: "0 < q"
    using assms(1) by (rule less_le_trans [rotated]) simp
  note b = ilog2_bounds [OF pos]
  have "lo \<le> ilog2 q"
  proof (rule ccontr)
    assume "\<not> lo \<le> ilog2 q"
    then have "ilog2 q + 1 \<le> lo" by simp
    then have "(2::rat) powi (ilog2 q + 1) \<le> 2 powi lo"
      by (rule power_int_increasing) simp
    with assms(1) b show False by simp
  qed
  moreover have "ilog2 q < hi"
  proof (rule ccontr)
    assume "\<not> ilog2 q < hi"
    then have "hi \<le> ilog2 q" by simp
    then have "(2::rat) powi hi \<le> 2 powi ilog2 q"
      by (rule power_int_increasing) simp
    with assms(2) b show False by simp
  qed
  ultimately show ?thesis ..
qed

lemma round_double_normal:
  assumes "2 powi (- 1022) \<le> q" and "q < 2 powi 1023"
  shows "\<exists>y. round_double q = Fin y \<and> \<bar>y - q\<bar> \<le> q / 2 ^ 53 \<and> 0 < y"
proof -
  have pos: "0 < q"
    using assms(1) by (rule less_le_trans [rotated]) simp
  from ilog2_range [OF assms] have lo: "- 1022 \<le> ilog2 q" and hi: "ilog2 q < 1023"
    by simp_all
  define e where "e = ilog2 q - 52"
  define P where "P = (2::rat) powi e"
  define x where "x = q / P"
  define m where "m = roundTiesToEven x"
  have P: "0 < P" by (simp add: P_def)
  have emax: "max (ilog2 q - 52) (- 1074) = e"
    using lo by (simp add: e_def)
  have p52: "(2::rat) powi ilog2 q = P * 2 ^ 52"
  proof -
    have "(2::rat) powi (e + 52) = 2 powi e * 2 powi 52"
      by (rule power_int_add) simp
    then show ?thesis by (simp add: e_def P_def)
  qed
  have p53: "(2::rat) powi (ilog2 q + 1) = P * 2 ^ 53"
  proof -
    have "(2::rat) powi (e + 53) = 2 powi e * 2 powi 53"
      by (rule power_int_add) simp
    then show ?thesis by (simp add: e_def P_def add.commute)
  qed
  from ilog2_bounds [OF pos] have q1: "P * 2 ^ 52 \<le> q" and q2: "q < P * 2 ^ 53"
    by (simp_all add: p52 p53)
  have x1: "2 ^ 52 \<le> x" and x2: "x < 2 ^ 53"
    using q1 q2 P by (simp_all add: x_def field_simps)
  have near: "\<bar>of_int m - x\<bar> \<le> 1 / 2"
    unfolding m_def by (rule roundTiesToEven_near)
  have m1: "2 ^ 52 \<le> m"
  proof -
    from near x1 have "(2 ^ 52 - 1 :: rat) < of_int m" by linarith
    then have "(of_int (2 ^ 52 - 1) :: rat) < of_int m" by simp
    then have "2 ^ 52 - 1 < m" by (simp only: of_int_less_iff)
    then show ?thesis by simp
  qed
  have m2: "m < 2 ^ 54"
  proof -
    have "(2 ^ 53 + 1 :: rat) \<le> 2 ^ 54" by simp
    with near x2 have "of_int m < (2 ^ 54 :: rat)" by linarith
    then have "(of_int m :: rat) < of_int (2 ^ 54)" by simp
    then show ?thesis by (simp only: of_int_less_iff)
  qed
  from m2 have "bitlen m \<le> 54"
    by (simp add: bitlen_le_iff_power)
  with hi have noovf: "\<not> 1024 < e + bitlen m"
    by (simp add: e_def)
  have val: "round_double q = Fin (of_int m * P)"
    using pos noovf unfolding m_def x_def P_def
    by (simp add: round_double_def emax Let_def)
  have "\<bar>of_int m * P - q\<bar> = \<bar>of_int m - x\<bar> * P"
  proof -
    have "of_int m * P - q = (of_int m - x) * P"
      using P by (simp add: x_def field_simps)
    then show ?thesis using P by (simp add: abs_mult)
  qed
  also have "\<dots> \<le> 1 / 2 * P"
    using near P by (simp add: mult_right_mono)
  also have "\<dots> \<le> q / 2 ^ 53"
    using q1 by (simp add: field_simps)
  finally have err: "\<bar>of_int m * P - q\<bar> \<le> q / 2 ^ 53" .
  have "0 < of_int m * P"
    using m1 P by (simp add: zero_less_mult_iff)
  with val err show ?thesis by blast
qed


lemma tiny: "(2::rat) powi (- 1022) \<le> 1 / 2 ^ 33"
  by (simp add: power_int_minus_divide)

lemma huge: "(201::rat) < 2 powi 1023"
proof -
  have "(201::rat) < 2 ^ 8" by simp
  also have "(2::rat) ^ 8 \<le> 2 ^ 1023" by (rule power_increasing) simp_all
  finally show ?thesis by simp
qed

lemma percent_near:
  fixes p t :: nat
  assumes "0 < t" and "p \<le> t" and "t < 2 ^ 32"
  shows "\<exists>w::int.
           Math_round (js_mul (js_div (of_length p) (of_length t)) (Fin 100)) = Fin (of_int w) \<and>
           \<bar>of_int w - 100 * of_nat p / of_nat t\<bar> \<le> (1 / 2 :: rat)"
proof (cases "p = 0")
  case True
  have "round_double 0 = Fin 0" by (simp add: round_double_def)
  moreover have "\<lfloor>1 / 2 :: rat\<rfloor> = 0" by (rule floor_unique) simp_all
  ultimately
  have "Math_round (js_mul (js_div (of_length p) (of_length t)) (Fin 100)) = Fin (of_int 0)"
    using True assms(1) by (simp add: of_length_def)
  with True show ?thesis by fastforce
next
  case False
  define x :: rat where "x = of_nat p / of_nat t"
  have tpos: "(0::rat) < of_nat t" using assms(1) by simp
  have t32: "(of_nat t :: rat) < 2 ^ 32"
  proof -
    from assms(3) have "(of_nat t :: rat) < of_nat (2 ^ 32)" by (simp only: of_nat_less_iff)
    then show ?thesis by simp
  qed
  have p1: "(1::rat) \<le> of_nat p" using False by simp
  have x_le: "x \<le> 1" using assms(1,2) by (simp add: x_def)
  have x_ge: "1 / 2 ^ 32 \<le> x"
  proof -
    have "1 / 2 ^ 32 \<le> 1 / (of_nat t :: rat)"
      using tpos t32 by (simp add: frac_le)
    also have "\<dots> \<le> x"
      using p1 tpos by (simp add: x_def divide_right_mono)
    finally show ?thesis .
  qed
  have xpos: "0 < x" using x_ge by (rule less_le_trans [rotated]) simp
  have "2 powi (- 1022) \<le> x"
    using tiny x_ge by simp
  moreover have "x < 2 powi 1023"
    using x_le huge by simp
  ultimately obtain d where d: "round_double x = Fin d" "\<bar>d - x\<bar> \<le> x / 2 ^ 53" "0 < d"
    using round_double_normal by blast
  define z where "z = d * 100"
  have d_lo: "x / 2 \<le> d"
  proof -
    have "x / 2 ^ 53 \<le> x / 2" using xpos by (simp add: frac_le)
    with d(2) show ?thesis by linarith
  qed
  have d_hi: "d \<le> 2"
  proof -
    have "x / 2 ^ 53 \<le> x" using xpos by (simp add: field_simps)
    with d(2) x_le show ?thesis by linarith
  qed
  have "2 powi (- 1022) \<le> z"
  proof -
    have "1 / 2 ^ 33 \<le> x / 2" using x_ge by simp
    with d_lo have "1 / 2 ^ 33 \<le> d" by simp
    also have "d \<le> z" using d(3) by (simp add: z_def)
    finally show ?thesis using tiny by simp
  qed
  moreover have "z < 2 powi 1023"
    using d_hi huge by (simp add: z_def)
  ultimately obtain y where y: "round_double z = Fin y" "\<bar>y - z\<bar> \<le> z / 2 ^ 53"
    using round_double_normal by blast
  define w where "w = \<lfloor>y + 1 / 2\<rfloor>"
  have val: "Math_round (js_mul (js_div (of_length p) (of_length t)) (Fin 100)) = Fin (of_int w)"
    using assms(1) d(1) y(1) by (simp add: of_length_def x_def [symmetric] z_def [symmetric] w_def)
  have wy: "\<bar>of_int w - y\<bar> \<le> 1 / 2"
    unfolding w_def by linarith
  have zx: "\<bar>z - 100 * x\<bar> \<le> 100 / 2 ^ 53"
  proof -
    have "\<bar>z - 100 * x\<bar> = 100 * \<bar>d - x\<bar>" by (simp add: z_def abs_if)
    also have "\<dots> \<le> 100 * (x / 2 ^ 53)" using d(2) by simp
    also have "\<dots> \<le> 100 / 2 ^ 53" using x_le by simp
    finally show ?thesis .
  qed
  have yz: "\<bar>y - z\<bar> \<le> 200 / 2 ^ 53"
  proof -
    have "z / 2 ^ 53 \<le> 200 / 2 ^ 53" using d_hi by (simp add: z_def)
    with y(2) show ?thesis by linarith
  qed
  from wy yz zx have dist: "\<bar>of_int w - 100 * x\<bar> \<le> 1 / 2 + 300 / 2 ^ 53"
    by linarith
  define k :: int where "k = int t * w - 100 * int p"
  have kx: "(of_int k :: rat) = of_nat t * (of_int w - 100 * x)"
    using tpos by (simp add: k_def x_def field_simps)
  have "\<bar>(of_int k :: rat)\<bar> = of_nat t * \<bar>of_int w - 100 * x\<bar>"
    unfolding kx using tpos by (simp add: abs_mult)
  also have "\<dots> \<le> of_nat t * (1 / 2 + 300 / 2 ^ 53)"
    using dist tpos by (simp add: mult_left_mono)
  also have "\<dots> = of_nat t / 2 + of_nat t * (300 / 2 ^ 53)"
    by (simp add: field_simps)
  also have "\<dots> < of_nat t / 2 + 1 / 2"
  proof -
    have "(of_nat t :: rat) * (300 / 2 ^ 53) \<le> 2 ^ 32 * (300 / 2 ^ 53)"
      using t32 by (simp add: mult_right_mono)
    also have "\<dots> < 1 / 2" by simp
    finally show ?thesis by simp
  qed
  finally have "2 * \<bar>(of_int k :: rat)\<bar> < of_nat t + 1" by simp
  then have "(of_int (2 * \<bar>k\<bar>) :: rat) < of_int (int t + 1)" by simp
  then have "2 * \<bar>k\<bar> < int t + 1" by (simp only: of_int_less_iff)
  then have "2 * \<bar>k\<bar> \<le> int t" by simp
  then have "(of_int (2 * \<bar>k\<bar>) :: rat) \<le> of_int (int t)" by (simp only: of_int_le_iff)
  then have "2 * \<bar>(of_int k :: rat)\<bar> \<le> of_nat t" by simp
  then have "2 * (of_nat t * \<bar>of_int w - 100 * x\<bar>) \<le> (of_nat t :: rat)"
    unfolding kx using tpos by (simp add: abs_mult)
  then have "\<bar>of_int w - 100 * x\<bar> \<le> 1 / 2"
    using tpos by (simp add: field_simps)
  then have "\<bar>of_int w - 100 * of_nat p / of_nat t\<bar> \<le> (1 / 2 :: rat)"
    by (simp add: x_def)
  with val show ?thesis by blast
qed


text \<open>The overflow test of \<open>round_double\<close> is the comparison with \<open>2 ^ 1024\<close>.\<close>

lemma overflow_test:
  assumes "0 < m"
  shows "1024 < e + bitlen m \<longleftrightarrow> (2::rat) ^ 1024 \<le> of_int m * 2 powi e"
proof -
  define b where "b = bitlen m"
  from assms have b1: "1 \<le> b" by (simp add: b_def bitlen_alt_def)
  from bitlen_bounds [OF assms] have lo: "2 ^ nat (b - 1) \<le> m" and hi: "m < 2 ^ nat b"
    by (simp_all add: b_def)
  have plo: "(2::rat) powi (b - 1) \<le> of_int m"
  proof -
    have "(2::rat) powi (b - 1) = of_int (2 ^ nat (b - 1))"
      using b1 by (simp add: power_int_def)
    also have "\<dots> \<le> of_int m" using lo by (simp only: of_int_le_iff)
    finally show ?thesis .
  qed
  have phi: "of_int m < (2::rat) powi b"
  proof -
    have "(of_int m :: rat) < of_int (2 ^ nat b)" using hi by (simp only: of_int_less_iff)
    also have "\<dots> = (2::rat) powi b" using b1 by (simp add: power_int_def)
    finally show ?thesis .
  qed
  have E: "(0::rat) < 2 powi e" by simp
  show ?thesis
  proof
    assume "1024 < e + bitlen m"
    then have "1024 \<le> e + (b - 1)" by (simp add: b_def)
    then have "(2::rat) powi 1024 \<le> 2 powi (e + (b - 1))"
      by (rule power_int_increasing) simp
    also have "\<dots> = 2 powi e * 2 powi (b - 1)"
      by (rule power_int_add) simp
    also have "\<dots> \<le> 2 powi e * of_int m"
      using plo E by (simp add: mult_left_mono)
    finally show "(2::rat) ^ 1024 \<le> of_int m * 2 powi e"
      by (simp add: mult.commute)
  next
    assume a: "(2::rat) ^ 1024 \<le> of_int m * 2 powi e"
    show "1024 < e + bitlen m"
    proof (rule ccontr)
      assume "\<not> 1024 < e + bitlen m"
      then have le: "e + b \<le> 1024" by (simp add: b_def)
      note a
      also have "of_int m * 2 powi e < 2 powi b * (2::rat) powi e"
        using phi E by (rule mult_strict_right_mono)
      also have "\<dots> = 2 powi (b + e)"
        by (rule power_int_add [symmetric]) simp
      also have "\<dots> \<le> 2 powi 1024"
        using le by (intro power_int_increasing) simp_all
      finally show False by simp
    qed
  qed
qed


lemma latin1_examples:
  "trim [CHR 0xA0] = [] \<and> parseFloat [CHR 0xA0, CHR ''5''] = Fin 5 \<and>
   toLowerCase [CHR 0xC9] = [CHR 0xE9] \<and> toLowerCase [CHR 0xD7] = [CHR 0xD7]"
  by code_simp

lemma one_of_three: "Math_round (js_mul (js_div (Fin 1) (Fin 3)) (Fin 100)) = Fin 33"
  by code_simp

section \<open>The claims\<close>

text \<open>
  C1. In every state reached from the initial one by any sequence of user events, every
  player's \<open>totalEarnings\<close> is the sum of the amounts of the player's earnings, and the
  \<open>total\<close> of each earning is the sum of the amounts up to and including that entry. The
  sum is the one the code forms: from zero, entry after entry, each addition rounded to a
  double (the two sides are the same value, also when that value is \<open>NaN\<close>).
\<close>

theorem running_totals_invariant:
  assumes "p \<in> set (players (run evs))"
  shows "totalEarnings p = foldl js_add (Fin 0) (map amount (earnings p)) \<and>
     (\<forall>i < length (earnings p).
        total (earnings p ! i) =
          foldl js_add (Fin 0) (map amount (take (Suc i) (earnings p))))"
proof -
  have "\<forall>p \<in> set (players (run evs)). ledger_ok p"
    by (induction rule: run_induct) (simp_all add: initial_def ledger_ok_step)
  with assms show ?thesis by (simp add: ledger_ok_def)
qed

lemma alice_session_players:
  "players (run alice_session) =
     [\<lparr>name = ''Alice'',
       earnings = [\<lparr>match = ''Ticket 1'', amount = Fin 50, total = Fin 50, date = ''11/3/2026''\<rparr>,
                   \<lparr>match = ''Ticket 2'', amount = Fin (- 20), total = Fin 30, date = ''11/4/2026''\<rparr>],
       totalEarnings = Fin 30\<rparr>]"
  by code_simp

text \<open>The amounts 0.1, 0.2 and 0.3 add up to 0.6000000000000001, as they do in the code.\<close>

lemma tenths_session_players:
  "players (run tenths_session) =
     [\<lparr>name = ''Alice'',
       earnings =
         [\<lparr>match = ''Ticket 1'', amount = Fin (3602879701896397 / 2 ^ 55),
           total = Fin (3602879701896397 / 2 ^ 55), date = ''11/3/2026''\<rparr>,
          \<lparr>match = ''Ticket 2'', amount = Fin (3602879701896397 / 2 ^ 54),
           total = Fin (5404319552844596 / 2 ^ 54), date = ''11/3/2026''\<rparr>,
          \<lparr>match = ''Ticket 3'', amount = Fin (5404319552844595 / 2 ^ 54),
           total = Fin (5404319552844596 / 2 ^ 53), date = ''11/3/2026''\<rparr>],
       totalEarnings = Fin (5404319552844596 / 2 ^ 53)\<rparr>]"
  by code_simp

theorem running_totals_invariant_witness:
  "totalEarnings (hd (players (run alice_session))) = Fin 30 \<and>
   foldl js_add (Fin 0) (map amount (earnings (hd (players (run alice_session))))) = Fin 30 \<and>
   total (earnings (hd (players (run alice_session))) ! 0) = Fin 50 \<and>
   total (earnings (hd (players (run alice_session))) ! 1) = Fin 30 \<and>
   totalEarnings (hd (players (run tenths_session))) = Fin (5404319552844596 / 2 ^ 53) \<and>
   foldl js_add (Fin 0) (map amount (earnings (hd (players (run tenths_session))))) =
     Fin (5404319552844596 / 2 ^ 53)"
proof -
  have mem: "hd (players (run alice_session)) \<in> set (players (run alice_session))"
    by (simp add: alice_session_players)
  have mem2: "hd (players (run tenths_session)) \<in> set (players (run tenths_session))"
    by (simp add: tenths_session_players)
  from running_totals_invariant [OF mem] have 1:
    "totalEarnings (hd (players (run alice_session))) = Fin 30 \<and>
     foldl js_add (Fin 0) (map amount (earnings (hd (players (run alice_session))))) = Fin 30 \<and>
     total (earnings (hd (players (run alice_session))) ! 0) = Fin 50 \<and>
     total (earnings (hd (players (run alice_session))) ! 1) = Fin 30"
    by (simp add: alice_session_players)
  from running_totals_invariant [OF mem2] have 2:
    "totalEarnings (hd (players (run tenths_session))) = Fin (5404319552844596 / 2 ^ 53) \<and>
     foldl js_add (Fin 0) (map amount (earnings (hd (players (run tenths_session))))) =
       Fin (5404319552844596 / 2 ^ 53)"
    by (simp add: tenths_session_players)
  from 1 2 show ?thesis by simp
qed

text \<open>
  C4. A successful \<open>handleAddEarning\<close> with parsed amount \<open>a\<close> appends exactly one earning
  to the roster's player of the selected name: with \<open>n\<close> earnings and total \<open>t\<close> before, the
  new entry is labelled \<open>Ticket\<close> \<open>n + 1\<close>, has amount \<open>a\<close> and total \<open>t + a\<close>, and the
  player's \<open>totalEarnings\<close> becomes \<open>t + a\<close> (the \<^verbatim>\<open>+\<close> of the two numbers). A fresh player
  who earns 50 and then -20 has the entries (Ticket 1, 50, 50) and (Ticket 2, -20, 30) and
  the total 30.
\<close>

theorem addEarning_appends_ticket:
  assumes "\<not> destructive (snd (handleAddEarning today s))"
    and "selectedPlayer s = Some sel"
    and "i < length (players s)" and "name (players s ! i) = name sel"
  shows "players (fst (handleAddEarning today s)) ! i =
           (players s ! i)
             \<lparr>earnings := earnings (players s ! i) @
                [\<lparr>match = ''Ticket '' @ string_of_nat (length (earnings (players s ! i)) + 1),
                  amount = parseFloat (newEarning s),
                  total = js_add (totalEarnings (players s ! i)) (parseFloat (newEarning s)),
                  date = today\<rparr>],
              totalEarnings := js_add (totalEarnings (players s ! i)) (parseFloat (newEarning s))\<rparr> \<and>
         players (run [SetNewPlayer ''Alice'', AddPlayer, SelectPlayer 0,
                       SetNewEarning ''50'', AddEarning d1,
                       SetNewEarning ''-20'', AddEarning d2]) =
           [\<lparr>name = ''Alice'',
             earnings = [\<lparr>match = ''Ticket 1'', amount = Fin 50, total = Fin 50, date = d1\<rparr>,
                         \<lparr>match = ''Ticket 2'', amount = Fin (- 20), total = Fin 30, date = d2\<rparr>],
             totalEarnings = Fin 30\<rparr>]"
proof -
  from assms have ne: "newEarning s \<noteq> []" and nn: "parseFloat (newEarning s) \<noteq> NaN"
    by (simp_all add: handleAddEarning_success_iff)
  have "players (fst (handleAddEarning today s)) ! i =
           (players s ! i)
             \<lparr>earnings := earnings (players s ! i) @
                [\<lparr>match = ''Ticket '' @ string_of_nat (length (earnings (players s ! i)) + 1),
                  amount = parseFloat (newEarning s),
                  total = js_add (totalEarnings (players s ! i)) (parseFloat (newEarning s)),
                  date = today\<rparr>],
              totalEarnings := js_add (totalEarnings (players s ! i)) (parseFloat (newEarning s))\<rparr>"
    using assms(3,4)
    by (simp add: handleAddEarning_ok [OF assms(2) ne nn] updatedPlayers_def withEarning_def Let_def)
  moreover
  have "players (run [SetNewPlayer ''Alice'', AddPlayer, SelectPlayer 0,
                       SetNewEarning ''50'', AddEarning d1,
                       SetNewEarning ''-20'', AddEarning d2]) =
           [\<lparr>name = ''Alice'',
             earnings = [\<lparr>match = ''Ticket 1'', amount = Fin 50, total = Fin 50, date = d1\<rparr>,
                         \<lparr>match = ''Ticket 2'', amount = Fin (- 20), total = Fin 30, date = d2\<rparr>],
             totalEarnings = Fin 30\<rparr>]"
    by code_simp
  ultimately show ?thesis by (rule conjI)
qed

theorem addEarning_appends_ticket_witness:
  "\<not> destructive (snd (handleAddEarning ''11/4/2026'' alice_and_bob)) \<and>
   selectedPlayer alice_and_bob = Some alice \<and>
   players alice_and_bob ! 0 = alice \<and>
   players (fst (handleAddEarning ''11/4/2026'' alice_and_bob)) ! 0 =
     \<lparr>name = ''Alice'',
      earnings = [\<lparr>match = ''Ticket 1'', amount = Fin 50, total = Fin 50, date = ''11/3/2026''\<rparr>,
                  \<lparr>match = ''Ticket 2'', amount = Fin (- 20), total = Fin 30, date = ''11/4/2026''\<rparr>],
      totalEarnings = Fin 30\<rparr>"
proof -
  have ok: "\<not> destructive (snd (handleAddEarning ''11/4/2026'' alice_and_bob))"
    by code_simp
  have sel: "selectedPlayer alice_and_bob = Some alice"
    by (simp add: alice_and_bob_def)
  have i: "0 < length (players alice_and_bob)"
    by (simp add: alice_and_bob_def)
  have nm: "name (players alice_and_bob ! 0) = name alice"
    by (simp add: alice_and_bob_def)
  have a: "parseFloat (newEarning alice_and_bob) = Fin (- 20)"
    by code_simp
  have n: "string_of_nat (Suc (Suc 0)) = ''2''"
    by code_simp
  have sum: "round_double 30 = Fin 30"
    by code_simp
  have p0: "players alice_and_bob ! 0 = alice"
    by (simp add: alice_and_bob_def)
  note r = addEarning_appends_ticket [OF ok sel i nm, THEN conjunct1, unfolded a p0]
  have "players (fst (handleAddEarning ''11/4/2026'' alice_and_bob)) ! 0 =
     \<lparr>name = ''Alice'',
      earnings = [\<lparr>match = ''Ticket 1'', amount = Fin 50, total = Fin 50, date = ''11/3/2026''\<rparr>,
                  \<lparr>match = ''Ticket 2'', amount = Fin (- 20), total = Fin 30, date = ''11/4/2026''\<rparr>],
      totalEarnings = Fin 30\<rparr>"
    unfolding r by (simp add: alice_def n sum)
  with ok sel p0 show ?thesis by (simp only: simp_thms)
qed

text \<open>
  C8. A successful \<open>handleAddEarning\<close> leaves the roster's length and every player whose
  name differs from the selected player's name as they were.
\<close>

theorem addEarning_other_players_unchanged:
  assumes "\<not> destructive (snd (handleAddEarning today s))"
    and "selectedPlayer s = Some sel"
  shows "length (players (fst (handleAddEarning today s))) = length (players s) \<and>
    (\<forall>i < length (players s). name (players s ! i) \<noteq> name sel \<longrightarrow>
        players (fst (handleAddEarning today s)) ! i = players s ! i)"
proof -
  from assms have ne: "newEarning s \<noteq> []" and nn: "parseFloat (newEarning s) \<noteq> NaN"
    by (simp_all add: handleAddEarning_success_iff)
  show ?thesis
    by (simp add: handleAddEarning_ok [OF assms(2) ne nn] updatedPlayers_def)
qed

theorem addEarning_other_players_unchanged_witness:
  "\<not> destructive (snd (handleAddEarning ''11/4/2026'' alice_and_bob)) \<and>
   name (players alice_and_bob ! 1) \<noteq> name alice \<and>
   length (players (fst (handleAddEarning ''11/4/2026'' alice_and_bob))) = 2 \<and>
   players (fst (handleAddEarning ''11/4/2026'' alice_and_bob)) ! 1 = bob"
proof -
  have ok: "\<not> destructive (snd (handleAddEarning ''11/4/2026'' alice_and_bob))"
    by code_simp
  have sel: "selectedPlayer alice_and_bob = Some alice"
    by (simp add: alice_and_bob_def)
  have other: "name (players alice_and_bob ! 1) \<noteq> name alice"
    by (simp add: alice_and_bob_def alice_def bob_def)
  from addEarning_other_players_unchanged [OF ok sel] ok other show ?thesis
    by (simp add: alice_and_bob_def)
qed

text \<open>
  C6 as stated does not hold at an exact half. Of forty players 23 are profitable, which
  is 57.5 percent; rounding that value gives 58, upwards as well as to the even
  neighbour. The code divides first, and the double nearest to 23/40 lies below it, so
  the product is 57.49999999999999 and the rate shown is 57.
\<close>

theorem win_rate_below_half:
  "totalPlayers forty_players = 40 \<and> profitablePlayers forty_players = 23 \<and>
   winRate forty_players = Fin 57 \<and>
   js_mul (js_div (Fin 23) (Fin 40)) (Fin 100) = Fin (8092405580431359 / 2 ^ 47) \<and>
   round (100 * 23 / 40 :: rat) = 58 \<and> roundTiesToEven (100 * 23 / 40) = 58"
  by code_simp

text \<open>
  C6, amended. The statistics: \<open>totalPlayers\<close> is the number of players,
  \<open>totalWinnings\<close> the sum of their \<open>totalEarnings\<close> (added from zero in roster order),
  \<open>profitablePlayers\<close> the number of players whose \<open>totalEarnings\<close> is greater than zero.
  With at least one player \<open>winRate\<close> is an integer at most one half away from 100 times
  the profitable players divided by the players: the nearest integer, and at an exact half
  one of the two neighbours (a roster is an array, so it has fewer than \<open>2 ^ 32\<close>
  players). With no player it is 0; three players of whom one is profitable give 33.
\<close>

theorem aggregate_stats:
  "totalPlayers ps = length ps \<and>
   totalWinnings ps = foldl js_add (Fin 0) (map totalEarnings ps) \<and>
   profitablePlayers ps = card {i. i < length ps \<and> js_gt (totalEarnings (ps ! i)) (Fin 0)} \<and>
   (ps \<noteq> [] \<and> length ps < 2 ^ 32 \<longrightarrow>
      (\<exists>w::int. winRate ps = Fin (of_int w) \<and>
         \<bar>of_int w -
            100 * rat_of_nat (profitablePlayers ps) / rat_of_nat (totalPlayers ps)\<bar> \<le> 1 / 2)) \<and>
   (ps = [] \<longrightarrow> winRate ps = Fin 0) \<and>
   (totalPlayers ps = 3 \<and> profitablePlayers ps = 1 \<longrightarrow> winRate ps = Fin 33)"
proof -
  have n: "totalPlayers ps = length ps"
    by (simp add: totalPlayers_def)
  have near: "\<exists>w::int. winRate ps = Fin (of_int w) \<and>
         \<bar>of_int w -
            100 * rat_of_nat (profitablePlayers ps) / rat_of_nat (totalPlayers ps)\<bar> \<le> 1 / 2"
    if "ps \<noteq> [] \<and> length ps < 2 ^ 32"
  proof -
    from that have t: "0 < totalPlayers ps" and b: "totalPlayers ps < 2 ^ 32"
      by (simp_all add: totalPlayers_def)
    have p: "profitablePlayers ps \<le> totalPlayers ps"
      by (simp add: profitablePlayers_def totalPlayers_def)
    from percent_near [OF t p b] t show ?thesis
      by (simp add: winRate_def)
  qed
  have ex: "winRate ps = Fin 33" if "totalPlayers ps = 3 \<and> profitablePlayers ps = 1"
    using that one_of_three by (simp add: winRate_def of_length_def)
  have none: "winRate ps = Fin 0" if "ps = []"
    using that by (simp add: winRate_def totalPlayers_def)
  from n totalWinnings_foldl profitable_card near ex none show ?thesis
    by blast
qed

theorem aggregate_stats_witness:
  "three_players \<noteq> [] \<and> totalPlayers three_players = 3 \<and>
   profitablePlayers three_players = 1 \<and> winRate three_players = Fin 33 \<and>
   totalWinnings three_players = Fin 5 \<and> winRate [] = Fin 0 \<and>
   totalPlayers forty_players = 40 \<and> profitablePlayers forty_players = 23 \<and>
   winRate forty_players = Fin 57"
proof -
  have n: "totalPlayers three_players = 3"
    by (simp add: totalPlayers_def three_players_def)
  have p: "profitablePlayers three_players = 1"
    by (simp add: profitablePlayers_def three_players_def)
  have ne: "three_players \<noteq> []"
    by (simp add: three_players_def)
  have w: "foldl js_add (Fin 0) (map totalEarnings three_players) = Fin 5"
    by code_simp
  have n40: "totalPlayers forty_players = 40"
    by (simp add: totalPlayers_def forty_players_def)
  have p40: "profitablePlayers forty_players = 23"
    by (simp add: profitablePlayers_def forty_players_def)
  have w40: "winRate forty_players = Fin 57"
    by code_simp
  from aggregate_stats [of three_players] aggregate_stats [of "[]"] n p ne w
  have "winRate three_players = Fin 33 \<and> totalWinnings three_players = Fin 5 \<and>
      winRate [] = Fin 0"
    by simp
  with ne n p n40 p40 w40 show ?thesis by simp
qed

text \<open>
  C7. A handler that raises a validation toast returns the state it was given, with the
  roster, every earning and total, the selection and the input fields as they were. This
  is so for each of the four failures: an empty trimmed name, a duplicate name, a missing
  amount or selection, and an amount that does not parse.
\<close>

theorem validation_failure_keeps_state:
  "(destructive (snd (handleAddPlayer s)) \<longrightarrow> fst (handleAddPlayer s) = s) \<and>
   (destructive (snd (handleAddEarning today s)) \<longrightarrow> fst (handleAddEarning today s) = s) \<and>
   (trim (newPlayer s) = [] \<longrightarrow> handleAddPlayer s = (s, Invalid_Input_Player)) \<and>
   (trim (newPlayer s) \<noteq> [] \<and>
    (\<exists>p \<in> set (players s). toLowerCase (name p) = toLowerCase (newPlayer s)) \<longrightarrow>
      handleAddPlayer s = (s, Player_Exists)) \<and>
   (newEarning s = [] \<or> selectedPlayer s = None \<longrightarrow>
      handleAddEarning today s = (s, Invalid_Input_Earning)) \<and>
   (newEarning s \<noteq> [] \<and> selectedPlayer s \<noteq> None \<and> parseFloat (newEarning s) = NaN \<longrightarrow>
      handleAddEarning today s = (s, Invalid_Amount))"
proof -
  have a: "destructive (snd (handleAddPlayer s)) \<longrightarrow> fst (handleAddPlayer s) = s"
    by (simp add: handleAddPlayer_def Let_def)
  have b: "destructive (snd (handleAddEarning today s)) \<longrightarrow> fst (handleAddEarning today s) = s"
    by (simp add: handleAddEarning_def Let_def split: option.split)
  have c: "trim (newPlayer s) = [] \<longrightarrow> handleAddPlayer s = (s, Invalid_Input_Player)"
    by (simp add: handleAddPlayer_def)
  have d: "trim (newPlayer s) \<noteq> [] \<and>
      (\<exists>p \<in> set (players s). toLowerCase (name p) = toLowerCase (newPlayer s)) \<longrightarrow>
      handleAddPlayer s = (s, Player_Exists)"
    by (simp add: handleAddPlayer_def list_ex_iff)
  have e: "newEarning s = [] \<or> selectedPlayer s = None \<longrightarrow>
      handleAddEarning today s = (s, Invalid_Input_Earning)"
    by (simp add: handleAddEarning_def split: option.split)
  have f: "newEarning s \<noteq> [] \<and> selectedPlayer s \<noteq> None \<and> parseFloat (newEarning s) = NaN \<longrightarrow>
      handleAddEarning today s = (s, Invalid_Amount)"
    by (simp add: handleAddEarning_def isNaN_def split: option.split)
  from a b c d e f show ?thesis by (intro conjI)
qed

theorem validation_failure_keeps_state_witness:
  "handleAddPlayer (alice_and_bob\<lparr>newPlayer := ''  ''\<rparr>) =
     (alice_and_bob\<lparr>newPlayer := ''  ''\<rparr>, Invalid_Input_Player) \<and>
   handleAddPlayer (alice_and_bob\<lparr>newPlayer := ''ALICE''\<rparr>) =
     (alice_and_bob\<lparr>newPlayer := ''ALICE''\<rparr>, Player_Exists) \<and>
   handleAddEarning ''11/4/2026'' (alice_and_bob\<lparr>newEarning := []\<rparr>) =
     (alice_and_bob\<lparr>newEarning := []\<rparr>, Invalid_Input_Earning) \<and>
   handleAddEarning ''11/4/2026'' (alice_and_bob\<lparr>selectedPlayer := None\<rparr>) =
     (alice_and_bob\<lparr>selectedPlayer := None\<rparr>, Invalid_Input_Earning) \<and>
   handleAddEarning ''11/4/2026'' (alice_and_bob\<lparr>newEarning := ''abc''\<rparr>) =
     (alice_and_bob\<lparr>newEarning := ''abc''\<rparr>, Invalid_Amount) \<and>
   fst (handleAddEarning ''11/4/2026'' (alice_and_bob\<lparr>newEarning := ''abc''\<rparr>)) =
     alice_and_bob\<lparr>newEarning := ''abc''\<rparr>"
proof -
  have t1: "trim (newPlayer (alice_and_bob\<lparr>newPlayer := ''  ''\<rparr>)) = []"
    by (simp add: trim_def isWhiteSpace_def)
  have t2: "trim (newPlayer (alice_and_bob\<lparr>newPlayer := ''ALICE''\<rparr>)) \<noteq> [] \<and>
     (\<exists>p \<in> set (players (alice_and_bob\<lparr>newPlayer := ''ALICE''\<rparr>)).
        toLowerCase (name p) = toLowerCase (newPlayer (alice_and_bob\<lparr>newPlayer := ''ALICE''\<rparr>)))"
    by (simp add: alice_and_bob_def alice_def) code_simp
  have t3: "newEarning (alice_and_bob\<lparr>newEarning := []\<rparr>) = [] \<or>
     selectedPlayer (alice_and_bob\<lparr>newEarning := []\<rparr>) = None"
    by simp
  have t4: "newEarning (alice_and_bob\<lparr>selectedPlayer := None\<rparr>) = [] \<or>
     selectedPlayer (alice_and_bob\<lparr>selectedPlayer := None\<rparr>) = None"
    by simp
  have p5: "parseFloat ''abc'' = NaN"
    by code_simp
  have t5: "newEarning (alice_and_bob\<lparr>newEarning := ''abc''\<rparr>) \<noteq> [] \<and>
     selectedPlayer (alice_and_bob\<lparr>newEarning := ''abc''\<rparr>) \<noteq> None \<and>
     parseFloat (newEarning (alice_and_bob\<lparr>newEarning := ''abc''\<rparr>)) = NaN"
    by (simp add: p5) (simp add: alice_and_bob_def)
  note v = validation_failure_keeps_state
  from v [of "alice_and_bob\<lparr>newPlayer := ''  ''\<rparr>" "''11/4/2026''",
      THEN conjunct2, THEN conjunct2, THEN conjunct1] t1
  have c1: "handleAddPlayer (alice_and_bob\<lparr>newPlayer := ''  ''\<rparr>) =
     (alice_and_bob\<lparr>newPlayer := ''  ''\<rparr>, Invalid_Input_Player)"
    by (rule mp)
  from v [of "alice_and_bob\<lparr>newPlayer := ''ALICE''\<rparr>" "''11/4/2026''",
      THEN conjunct2, THEN conjunct2, THEN conjunct2, THEN conjunct1] t2
  have c2: "handleAddPlayer (alice_and_bob\<lparr>newPlayer := ''ALICE''\<rparr>) =
     (alice_and_bob\<lparr>newPlayer := ''ALICE''\<rparr>, Player_Exists)"
    by (rule mp)
  from v [of "alice_and_bob\<lparr>newEarning := []\<rparr>" "''11/4/2026''",
      THEN conjunct2, THEN conjunct2, THEN conjunct2, THEN conjunct2, THEN conjunct1] t3
  have c3: "handleAddEarning ''11/4/2026'' (alice_and_bob\<lparr>newEarning := []\<rparr>) =
     (alice_and_bob\<lparr>newEarning := []\<rparr>, Invalid_Input_Earning)"
    by (rule mp)
  from v [of "alice_and_bob\<lparr>selectedPlayer := None\<rparr>" "''11/4/2026''",
      THEN conjunct2, THEN conjunct2, THEN conjunct2, THEN conjunct2, THEN conjunct1] t4
  have c4: "handleAddEarning ''11/4/2026'' (alice_and_bob\<lparr>selectedPlayer := None\<rparr>) =
     (alice_and_bob\<lparr>selectedPlayer := None\<rparr>, Invalid_Input_Earning)"
    by (rule mp)
  from v [of "alice_and_bob\<lparr>newEarning := ''abc''\<rparr>" "''11/4/2026''",
      THEN conjunct2, THEN conjunct2, THEN conjunct2, THEN conjunct2, THEN conjunct2] t5
  have c5: "handleAddEarning ''11/4/2026'' (alice_and_bob\<lparr>newEarning := ''abc''\<rparr>) =
     (alice_and_bob\<lparr>newEarning := ''abc''\<rparr>, Invalid_Amount)"
    by (rule mp)
  have d5: "destructive (snd (handleAddEarning ''11/4/2026'' (alice_and_bob\<lparr>newEarning := ''abc''\<rparr>)))"
    by (simp only: c5 snd_conv destructive.simps)
  from v [of "alice_and_bob\<lparr>newEarning := ''abc''\<rparr>" "''11/4/2026''",
      THEN conjunct2, THEN conjunct1] d5
  have c6: "fst (handleAddEarning ''11/4/2026'' (alice_and_bob\<lparr>newEarning := ''abc''\<rparr>)) =
     alice_and_bob\<lparr>newEarning := ''abc''\<rparr>"
    by (rule mp)
  from c1 c2 c3 c4 c5 c6 show ?thesis by (intro conjI)
qed

text \<open>
  C10. \<open>handleAddPlayer\<close> succeeds exactly when the trimmed input is not empty and no
  stored name equals the untrimmed input up to letter case. It then appends one player
  whose name is the input without its leading and trailing white space, with no earnings
  and the total zero.
\<close>

theorem addPlayer_stores_trimmed_name:
  "(\<not> destructive (snd (handleAddPlayer s)) \<longleftrightarrow>
      trim (newPlayer s) \<noteq> [] \<and>
      (\<forall>p \<in> set (players s). toLowerCase (name p) \<noteq> toLowerCase (newPlayer s))) \<and>
   (\<not> destructive (snd (handleAddPlayer s)) \<longrightarrow>
      fst (handleAddPlayer s) =
        s\<lparr>players := players s @
             [\<lparr>name = trim (newPlayer s), earnings = [], totalEarnings = Fin 0\<rparr>],
          newPlayer := []\<rparr> \<and>
      \<not> isWhiteSpace (hd (trim (newPlayer s))) \<and>
      \<not> isWhiteSpace (last (trim (newPlayer s)))) \<and>
   (\<exists>pre suf. newPlayer s = pre @ trim (newPlayer s) @ suf \<and>
      (\<forall>c \<in> set pre. isWhiteSpace c) \<and> (\<forall>c \<in> set suf. isWhiteSpace c))"
proof -
  have iff: "\<not> destructive (snd (handleAddPlayer s)) \<longleftrightarrow>
      trim (newPlayer s) \<noteq> [] \<and>
      (\<forall>p \<in> set (players s). toLowerCase (name p) \<noteq> toLowerCase (newPlayer s))"
    by (simp add: handleAddPlayer_success_iff list_ex_iff)
  have st: "fst (handleAddPlayer s) =
        s\<lparr>players := players s @
             [\<lparr>name = trim (newPlayer s), earnings = [], totalEarnings = Fin 0\<rparr>],
          newPlayer := []\<rparr>"
    if "\<not> destructive (snd (handleAddPlayer s))"
    using that by (simp add: handleAddPlayer_success_iff handleAddPlayer_ok)
  have ends: "\<not> isWhiteSpace (hd (trim (newPlayer s))) \<and>
      \<not> isWhiteSpace (last (trim (newPlayer s)))"
    if "\<not> destructive (snd (handleAddPlayer s))"
    using that by (simp add: handleAddPlayer_success_iff trim_ends)
  from iff st ends trim_decomp [of "newPlayer s"] show ?thesis by blast
qed

theorem addPlayer_stores_trimmed_name_witness:
  "\<not> destructive (snd (handleAddPlayer (alice_and_bob\<lparr>newPlayer := (CHR 0xA0 # '' Cy '')\<rparr>))) \<and>
   players (fst (handleAddPlayer (alice_and_bob\<lparr>newPlayer := (CHR 0xA0 # '' Cy '')\<rparr>))) =
     [alice, bob, \<lparr>name = ''Cy'', earnings = [], totalEarnings = Fin 0\<rparr>]"
proof -
  have t: "trim (CHR 0xA0 # '' Cy '') = ''Cy''"
    by code_simp
  have ok: "trim (newPlayer (alice_and_bob\<lparr>newPlayer := (CHR 0xA0 # '' Cy '')\<rparr>)) \<noteq> [] \<and>
     (\<forall>p \<in> set (players (alice_and_bob\<lparr>newPlayer := (CHR 0xA0 # '' Cy '')\<rparr>)).
        toLowerCase (name p) \<noteq> toLowerCase (newPlayer (alice_and_bob\<lparr>newPlayer := (CHR 0xA0 # '' Cy '')\<rparr>)))"
    by (simp add: alice_and_bob_def alice_def bob_def) code_simp
  from addPlayer_stores_trimmed_name [of "alice_and_bob\<lparr>newPlayer := (CHR 0xA0 # '' Cy '')\<rparr>"] ok
  have s: "\<not> destructive (snd (handleAddPlayer (alice_and_bob\<lparr>newPlayer := (CHR 0xA0 # '' Cy '')\<rparr>)))"
    and r: "fst (handleAddPlayer (alice_and_bob\<lparr>newPlayer := (CHR 0xA0 # '' Cy '')\<rparr>)) =
      (alice_and_bob\<lparr>newPlayer := (CHR 0xA0 # '' Cy '')\<rparr>)
        \<lparr>players := players (alice_and_bob\<lparr>newPlayer := (CHR 0xA0 # '' Cy '')\<rparr>) @
           [\<lparr>name = trim (newPlayer (alice_and_bob\<lparr>newPlayer := (CHR 0xA0 # '' Cy '')\<rparr>)), earnings = [],
             totalEarnings = Fin 0\<rparr>],
         newPlayer := []\<rparr>"
    by blast+
  show ?thesis
    unfolding r using s by (simp add: t) (simp add: alice_and_bob_def)
qed

text \<open>
  C9. After a successful \<open>handleAddEarning\<close> the selection is the result of looking the
  selected name up in the rebuilt roster: the updated record of that name, which carries
  the new earning as its last entry, or nothing when the rebuilt roster has no player of
  that name. In a reachable state the new selection exists, differs from the record
  selected before and is no record of the roster before the call.
\<close>

theorem selection_re_resolved:
  assumes "\<not> destructive (snd (handleAddEarning today s))"
    and "selectedPlayer s = Some sel"
  shows "selectedPlayer (fst (handleAddEarning today s)) =
           find (\<lambda>p. name p = name sel) (players (fst (handleAddEarning today s))) \<and>
         selectedPlayer (fst (handleAddEarning today s)) =
           map_option (withEarning today (parseFloat (newEarning s)))
             (find (\<lambda>p. name p = name sel) (players s)) \<and>
         (\<forall>p. selectedPlayer (fst (handleAddEarning today s)) = Some p \<longrightarrow>
            name p = name sel \<and> p \<in> set (players (fst (handleAddEarning today s))) \<and>
            earnings p \<noteq> [] \<and> amount (last (earnings p)) = parseFloat (newEarning s) \<and>
            date (last (earnings p)) = today) \<and>
         ((\<forall>p \<in> set (players (fst (handleAddEarning today s))). name p \<noteq> name sel) \<longrightarrow>
            selectedPlayer (fst (handleAddEarning today s)) = None) \<and>
         ((\<exists>evs. s = run evs) \<longrightarrow>
            selectedPlayer (fst (handleAddEarning today s)) \<noteq> None \<and>
            selectedPlayer (fst (handleAddEarning today s)) \<noteq> Some sel \<and>
            (\<forall>p. selectedPlayer (fst (handleAddEarning today s)) = Some p \<longrightarrow>
               p \<notin> set (players s)))"
proof -
  let ?a = "parseFloat (newEarning s)"
  let ?s' = "fst (handleAddEarning today s)"
  let ?byName = "\<lambda>p. name p = name sel"
  from assms have ne: "newEarning s \<noteq> []" and nn: "?a \<noteq> NaN"
    by (simp_all add: handleAddEarning_success_iff)
  note ok = handleAddEarning_ok [OF assms(2) ne nn]
  have ps': "players ?s' = updatedPlayers today ?a sel (players s)"
    by (simp add: ok)
  have a: "selectedPlayer ?s' = find ?byName (players ?s')"
    by (simp add: ok)
  have b: "selectedPlayer ?s' = map_option (withEarning today ?a) (find ?byName (players s))"
    by (simp add: ok find_updatedPlayers)
  have c: "name p = name sel \<and> p \<in> set (players ?s') \<and> earnings p \<noteq> [] \<and>
      amount (last (earnings p)) = ?a \<and> date (last (earnings p)) = today"
    if p: "selectedPlayer ?s' = Some p" for p
  proof -
    from p a have "find ?byName (players ?s') = Some p" by simp
    then have 1: "p \<in> set (players ?s') \<and> name p = name sel" by (rule find_Some_mem)
    from p b obtain q where "p = withEarning today ?a q" by auto
    then have "earnings p \<noteq> [] \<and> amount (last (earnings p)) = ?a \<and>
        date (last (earnings p)) = today"
      by (simp add: withEarning_def Let_def)
    with 1 show ?thesis by simp
  qed
  have d: "selectedPlayer ?s' = None" if "\<forall>p \<in> set (players ?s'). name p \<noteq> name sel"
    using that by (simp add: a find_None_iff)
  have e: "selectedPlayer ?s' \<noteq> None \<and> selectedPlayer ?s' \<noteq> Some sel \<and>
      (\<forall>p. selectedPlayer ?s' = Some p \<longrightarrow> p \<notin> set (players s))"
    if "\<exists>evs. s = run evs"
  proof -
    from that obtain evs where s: "s = run evs" ..
    from assms(2) have mem: "sel \<in> set (players s)"
      unfolding s by (rule selected_in_roster)
    have sen: "seniority (players s)"
      unfolding s by (rule seniority_run)
    from mem have "find ?byName (players s) \<noteq> None"
      by (auto simp: find_None_iff)
    then obtain q where q: "find ?byName (players s) = Some q" by auto
    with b have new: "selectedPlayer ?s' = Some (withEarning today ?a q)" by simp
    have fresh: "withEarning today ?a q \<noteq> r" if r: "r \<in> set (players s)" for r
    proof (cases "name r = name sel")
      case True
      with sen q r have "length (earnings r) \<le> length (earnings q)"
        by (rule find_first_longest)
      then have "length (earnings (withEarning today ?a q)) \<noteq> length (earnings r)"
        by simp
      then show ?thesis by auto
    next
      case False
      from q have "name q = name sel" by (auto dest: find_Some_mem)
      with False have "name (withEarning today ?a q) \<noteq> name r" by simp
      then show ?thesis by auto
    qed
    from fresh mem have "withEarning today ?a q \<noteq> sel" by blast
    with new fresh show ?thesis by auto
  qed
  from a b c d e show ?thesis by blast
qed

lemma alice_selected_state:
  "run alice_selected =
     \<lparr>players = [\<lparr>name = ''Alice'', earnings = [], totalEarnings = Fin 0\<rparr>],
      selectedPlayer = Some \<lparr>name = ''Alice'', earnings = [], totalEarnings = Fin 0\<rparr>,
      newPlayer = [], newEarning = ''50'', showAllPlayers = False\<rparr>"
  by code_simp

theorem selection_re_resolved_witness:
  "\<not> destructive (snd (handleAddEarning ''11/3/2026'' (run alice_selected))) \<and>
   selectedPlayer (run alice_selected) =
     Some \<lparr>name = ''Alice'', earnings = [], totalEarnings = Fin 0\<rparr> \<and>
   selectedPlayer (fst (handleAddEarning ''11/3/2026'' (run alice_selected))) = Some alice \<and>
   selectedPlayer (fst (handleAddEarning ''11/3/2026'' (run alice_selected))) \<noteq>
     Some \<lparr>name = ''Alice'', earnings = [], totalEarnings = Fin 0\<rparr> \<and>
   players (fst (handleAddEarning ''11/3/2026'' (run alice_selected))) = [alice] \<and>
   \<not> destructive (snd (handleAddEarning ''11/3/2026'' stale_selection)) \<and>
   selectedPlayer stale_selection = Some alice \<and>
   selectedPlayer (fst (handleAddEarning ''11/3/2026'' stale_selection)) = None"
proof -
  let ?fresh = "\<lparr>name = ''Alice'', earnings = [], totalEarnings = Fin 0\<rparr>"
  have ok: "\<not> destructive (snd (handleAddEarning ''11/3/2026'' (run alice_selected)))"
    by code_simp
  have sel: "selectedPlayer (run alice_selected) = Some ?fresh"
    by (simp add: alice_selected_state)
  have a: "parseFloat (newEarning (run alice_selected)) = Fin 50"
    by code_simp
  have f: "find (\<lambda>p. name p = name ?fresh) (players (run alice_selected)) = Some ?fresh"
    by (simp add: alice_selected_state)
  have w: "withEarning ''11/3/2026'' (Fin 50) ?fresh = alice"
    by code_simp
  have ps: "players (fst (handleAddEarning ''11/3/2026'' (run alice_selected))) = [alice]"
    by code_simp
  note r = selection_re_resolved [OF ok sel, THEN conjunct2, THEN conjunct1, unfolded a f]
  have new: "selectedPlayer (fst (handleAddEarning ''11/3/2026'' (run alice_selected))) = Some alice"
    unfolding r by (simp add: w)
  have "\<exists>evs. run alice_selected = run evs"
    by blast
  with selection_re_resolved [OF ok sel, THEN conjunct2, THEN conjunct2, THEN conjunct2,
      THEN conjunct2]
  have moved: "selectedPlayer (fst (handleAddEarning ''11/3/2026'' (run alice_selected))) \<noteq>
      Some ?fresh"
    by blast
  have ok2: "\<not> destructive (snd (handleAddEarning ''11/3/2026'' stale_selection))"
    by code_simp
  have sel2: "selectedPlayer stale_selection = Some alice"
    by (simp add: stale_selection_def)
  have ps2: "players (fst (handleAddEarning ''11/3/2026'' stale_selection)) = [bob]"
    by code_simp
  have absent: "\<forall>p \<in> set (players (fst (handleAddEarning ''11/3/2026'' stale_selection))).
      name p \<noteq> name alice"
    unfolding ps2 by (simp add: alice_def bob_def)
  from selection_re_resolved [OF ok2 sel2, THEN conjunct2, THEN conjunct2, THEN conjunct2,
      THEN conjunct1] absent
  have none: "selectedPlayer (fst (handleAddEarning ''11/3/2026'' stale_selection)) = None"
    by (rule mp)
  from ok sel new moved ps ok2 sel2 none show ?thesis by (intro conjI)
qed




text \<open>
  C3. Names are to be unique up to letter case in every reachable state, and an input that
  matches a stored name is to be refused. The code does not keep this: the duplicate check
  compares the untrimmed input, while the emptiness check and the stored name use the
  trimmed one. After \<^verbatim>\<open>Alice\<close>, the input \<^verbatim>\<open>Alice\<close> with a trailing space is
  accepted, and the roster holds two players named \<^verbatim>\<open>Alice\<close>.
\<close>

theorem duplicate_name_after_trim:
  "players (run [SetNewPlayer ''Alice'', AddPlayer, SetNewPlayer ''Alice '', AddPlayer]) =
     [\<lparr>name = ''Alice'', earnings = [], totalEarnings = Fin 0\<rparr>,
      \<lparr>name = ''Alice'', earnings = [], totalEarnings = Fin 0\<rparr>]"
  by code_simp

text \<open>
  C5. The table is to have one row per distinct label, in string order, and in each row a
  player's value is to be the total of that player's earning with the label, or no data.
  The code does not keep this once two players share a name, which the defect of C3
  allows: a row has one value per name, written by the last player of that name. In the
  session \<open>two_alices\<close> the first Alice has a Ticket 1 with total 10 and a Ticket 2 with
  total 15, yet the rows show 5 and no data under her name.
\<close>

theorem shared_name_overwrites_row:
  "map name (players (run two_alices)) = [''Alice'', ''Alice''] \<and>
   sortedMatches (players (run two_alices)) = [''Ticket 1'', ''Ticket 2''] \<and>
   map (cell ''Ticket 1'') (players (run two_alices)) = [Num (Fin 10), Num (Fin 5)] \<and>
   map (cell ''Ticket 2'') (players (run two_alices)) = [Num (Fin 15), Null] \<and>
   map (\<lambda>row. row ''Alice'') (generateAllPlayersData (players (run two_alices))) =
     [Some (Num (Fin 5)), Some Null]"
  by code_simp

text \<open>With pairwise different names, none of them \<^verbatim>\<open>__proto__\<close>, the table is as C5
  describes it.\<close>

lemma generateAllPlayersData_distinct_names:
  assumes "distinct (map name ps)" and "''__proto__'' \<notin> name ` set ps"
  shows "generateAllPlayersData ps = map (dataPoint ps) (sortedMatches ps) \<and>
         set (sortedMatches ps) = (\<Union>p \<in> set ps. match ` set (earnings p)) \<and>
         distinct (sortedMatches ps) \<and> sorted (sortedMatches ps) \<and>
         (\<forall>m. \<forall>p \<in> set ps. dataPoint ps m (name p) = Some (cell m p)) \<and>
         (\<forall>m. ''match'' \<notin> name ` set ps \<longrightarrow> dataPoint ps m ''match'' = Some (Str m))"
proof -
  have "dataPoint ps m ''match'' = Some (Str m)" if "''match'' \<notin> name ` set ps" for m
  proof -
    have "name p \<noteq> ''match''" if "p \<in> set ps" for p
      using that \<open>''match'' \<notin> name ` set ps\<close> by (metis imageI)
    then have "find (\<lambda>p. name p = ''match'') (rev ps) = None"
      by (simp add: find_None_iff)
    then show ?thesis
      by (simp add: dataPoint_def dataPoint_plain [OF assms(2)] foldl_upd_lookup)
  qed
  with sortedMatches_props [of ps] dataPoint_distinct [OF assms] show ?thesis
    by (simp add: generateAllPlayersData_def)
qed

end
